theory Spec2Isabelle
  imports Complex_Main "HOL-Library.Word"
begin

section \<open>The rate limiter middleware of vinxi/ratelimit (ratelimit.go)\<close>

text \<open>
  The package wraps a token bucket of \<^verbatim>\<open>github.com/juju/ratelimit\<close> into an HTTP
  middleware. The embedding follows ratelimit.go function by function:
  \<^item> Go's \<^verbatim>\<open>int64\<close> is \<open>64 word\<close>, read as two's complement by \<open>sint\<close>; Go's
    \<^verbatim>\<open>int\<close> is taken to be 64 bits wide (amd64, arm64), so the conversion
    \<^verbatim>\<open>int(x)\<close> of an \<^verbatim>\<open>int64\<close> is the identity;
  \<^item> function values (filters, exceptions, handlers, the responder) are total HOL
    functions: a nil function value and a panicking or effectful predicate are outside
    the model;
  \<^item> every mutation is explicit state passing. The state of one handler run holds the
    limiter object, the response writer and the log of the calls the middleware makes
    to its collaborators (bucket, header map, downstream handler, responder), in
    program order;
  \<^item> the bucket is a dependency whose code is not part of ratelimit.go: the limiter is
    defined over a record of the three bucket methods it calls, and every statement about
    the limiter holds for any bucket. A bucket that follows the specification's section
    4.1 is given separately and plugged in where a statement needs the bucket's own
    behaviour.
\<close>

subsection \<open>Requests, response writers and header maps (net/http)\<close>

type_synonym int64 = "64 word"

text \<open>A request is opaque to the limiter: only filters and exceptions inspect it.\<close>

record Request =
  Method :: string
  Path :: string
  RequestHeader :: "(string \<times> string) list"

text \<open>
  \<^verbatim>\<open>http.Header\<close> is \<^verbatim>\<open>map[string][]string\<close>. \<^verbatim>\<open>Set\<close> and \<^verbatim>\<open>Get\<close> address a key by
  its canonical form (\<^verbatim>\<open>textproto.CanonicalMIMEHeaderKey\<close>): a key made of token
  bytes gets an upper-case letter first and after every dash and lower-case letters
  elsewhere; any other key is left alone.
\<close>

type_synonym Header = "string \<rightharpoonup> string list"

definition validHeaderFieldByte :: "char \<Rightarrow> bool" where
  "validHeaderFieldByte c =
     (let n = (of_char c :: nat) in
      (48 \<le> n \<and> n \<le> 57) \<or> (65 \<le> n \<and> n \<le> 90) \<or> (97 \<le> n \<and> n \<le> 122) \<or>
      n \<in> {33, 35, 36, 37, 38, 39, 42, 43, 45, 46, 94, 95, 96, 124, 126})"

fun canonicalMIMEHeaderKey :: "bool \<Rightarrow> string \<Rightarrow> string" where
  "canonicalMIMEHeaderKey upper [] = []"
| "canonicalMIMEHeaderKey upper (c # cs) =
     (let n = (of_char c :: nat);
          c' = (if upper \<and> 97 \<le> n \<and> n \<le> 122 then char_of (n - 32)
                else if \<not> upper \<and> 65 \<le> n \<and> n \<le> 90 then char_of (n + 32)
                else c)
      in c' # canonicalMIMEHeaderKey (c' = CHR ''-'') cs)"

definition CanonicalMIMEHeaderKey :: "string \<Rightarrow> string" where
  "CanonicalMIMEHeaderKey s =
     (if list_all validHeaderFieldByte s then canonicalMIMEHeaderKey True s else s)"

definition Header_Set :: "string \<Rightarrow> string \<Rightarrow> Header \<Rightarrow> Header" where
  "Header_Set key v hdr = hdr(CanonicalMIMEHeaderKey key \<mapsto> [v])"

definition Header_Get :: "Header \<Rightarrow> string \<Rightarrow> string" where
  "Header_Get hdr key =
     (case hdr (CanonicalMIMEHeaderKey key) of
        None \<Rightarrow> []
      | Some [] \<Rightarrow> []
      | Some (v # vs) \<Rightarrow> v)"

text \<open>
  A response writer, as \<^verbatim>\<open>http.ResponseWriter\<close> behaves: the header map, the status
  code once it has been written, and the body written so far. \<^verbatim>\<open>WriteHeader\<close> after
  the status has been written is ignored; \<^verbatim>\<open>Write\<close> writes status 200 first if none
  has been written.
\<close>

record ResponseWriter =
  header :: Header
  status :: "int option"
  body :: string

definition WriteHeader :: "int \<Rightarrow> ResponseWriter \<Rightarrow> ResponseWriter" where
  "WriteHeader code rw = (case status rw of None \<Rightarrow> rw\<lparr>status := Some code\<rparr> | Some _ \<Rightarrow> rw)"

definition Write :: "string \<Rightarrow> ResponseWriter \<Rightarrow> ResponseWriter" where
  "Write bytes rw = (let rw' = WriteHeader 200 rw in rw'\<lparr>body := body rw' @ bytes\<rparr>)"

type_synonym HandlerFunc = "ResponseWriter \<Rightarrow> Request \<Rightarrow> ResponseWriter"

subsection \<open>Decimal formatting (strconv.Itoa)\<close>

definition digit :: "nat \<Rightarrow> char" where
  "digit d = ''0123456789'' ! d"

fun formatBits :: "nat \<Rightarrow> string" where
  "formatBits n = (if n < 10 then [digit n] else formatBits (n div 10) @ [digit (n mod 10)])"

declare formatBits.simps [simp del]

definition FormatInt :: "int \<Rightarrow> string" where
  "FormatInt i = (if i < 0 then CHR ''-'' # formatBits (nat (- i)) else formatBits (nat i))"

definition Itoa :: "int64 \<Rightarrow> string" where
  "Itoa i = FormatInt (sint i)"

text \<open>Reading a decimal string back, to say what a decimal integer string denotes.\<close>

definition digit_value :: "char \<Rightarrow> nat option" where
  "digit_value c =
     (let n = (of_char c :: nat) in if 48 \<le> n \<and> n \<le> 57 then Some (n - 48) else None)"

fun parse_digits :: "nat \<Rightarrow> string \<Rightarrow> nat option" where
  "parse_digits acc [] = Some acc"
| "parse_digits acc (c # cs) =
     (case digit_value c of None \<Rightarrow> None | Some d \<Rightarrow> parse_digits (10 * acc + d) cs)"

definition parse_decimal :: "string \<Rightarrow> int option" where
  "parse_decimal s =
     (case s of
        [] \<Rightarrow> None
      | c # cs \<Rightarrow>
          if c = CHR ''-'' then (if cs = [] then None else map_option (\<lambda>n. - int n) (parse_digits 0 cs))
          else map_option int (parse_digits 0 s))"

subsection \<open>The bucket the limiter holds\<close>

text \<open>
  The three methods of \<^verbatim>\<open>*ratelimit.Bucket\<close> that ratelimit.go calls, over a bucket
  state \<open>'b\<close>. \<^verbatim>\<open>TakeAvailable\<close> and \<^verbatim>\<open>Available\<close> read the clock and may refill, so
  both return a new bucket state; \<^verbatim>\<open>Capacity\<close> only reads.
\<close>

record 'b Bucket =
  TakeAvailable :: "int64 \<Rightarrow> 'b \<Rightarrow> int64 \<times> 'b"
  Capacity :: "'b \<Rightarrow> int64"
  Available :: "'b \<Rightarrow> int64 \<times> 'b"

datatype error = InvalidConfig | NilPointer

subsection \<open>type Limiter, its constructors and setters\<close>

type_synonym Filter = "Request \<Rightarrow> bool"

type_synonym Exception = Filter

record 'b Limiter =
  bucket :: 'b
  responder :: HandlerFunc
  filters :: "Filter list"
  exceptions :: "Exception list"

text \<open>
  \<^verbatim>\<open>var RateLimitResponder = func(w, r) { w.WriteHeader(429); w.Write(...) }\<close>:
  the value the package variable is initialised with.
\<close>

definition RateLimitResponder :: HandlerFunc where
  "RateLimitResponder rw r = Write ''Too Many Requests'' (WriteHeader 429 rw)"

text \<open>
  The constructors read the package variable \<^verbatim>\<open>RateLimitResponder\<close> (its current
  value is the argument \<open>current\<close>) and call the bucket's constructor (the argument
  \<open>newBucket\<close>, resp. \<open>newBucketWithRate\<close>). A constructor of the bucket that fails
  panics in Go: the struct literal is never built and the failure is the constructor's
  result. A fresh limiter has nil (empty) filter and exception slices.
\<close>

definition NewTimeLimiter ::
  "(int64 \<Rightarrow> int64 \<Rightarrow> error + 'b) \<Rightarrow> HandlerFunc \<Rightarrow> int64 \<Rightarrow> int64 \<Rightarrow> error + 'b Limiter" where
  "NewTimeLimiter newBucket current timeWindow capacity =
     (case newBucket timeWindow capacity of
        Inl e \<Rightarrow> Inl e
      | Inr b \<Rightarrow> Inr \<lparr>bucket = b, responder = current, filters = [], exceptions = []\<rparr>)"

definition NewRateLimiter ::
  "('f \<Rightarrow> int64 \<Rightarrow> error + 'b) \<Rightarrow> HandlerFunc \<Rightarrow> 'f \<Rightarrow> int64 \<Rightarrow> error + 'b Limiter" where
  "NewRateLimiter newBucketWithRate current rate capacity =
     (case newBucketWithRate rate capacity of
        Inl e \<Rightarrow> Inl e
      | Inr b \<Rightarrow> Inr \<lparr>bucket = b, responder = current, filters = [], exceptions = []\<rparr>)"

definition SetResponder :: "HandlerFunc \<Rightarrow> 'b Limiter \<Rightarrow> 'b Limiter" where
  "SetResponder fn l = l\<lparr>responder := fn\<rparr>"

definition Filter :: "Filter list \<Rightarrow> 'b Limiter \<Rightarrow> 'b Limiter" where
  "Filter fn l = l\<lparr>filters := filters l @ fn\<rparr>"

definition Exception :: "Exception list \<Rightarrow> 'b Limiter \<Rightarrow> 'b Limiter" where
  "Exception fn l = l\<lparr>exceptions := exceptions l @ fn\<rparr>"

subsection \<open>The state of a handler run and the calls it makes\<close>

datatype call =
    Call_TakeAvailable int64
  | Call_Capacity
  | Call_Available
  | Call_Header_Set string string
  | Call_ServeHTTP ResponseWriter Request
  | Call_responder ResponseWriter Request

record 'b state =
  limiter :: "'b Limiter"
  writer :: ResponseWriter
  calls :: "call list"

definition emit :: "call \<Rightarrow> 'b state \<Rightarrow> 'b state" where
  "emit c s = s\<lparr>calls := calls s @ [c]\<rparr>"

text \<open>\<^verbatim>\<open>l.bucket.TakeAvailable(n)\<close>, \<^verbatim>\<open>l.bucket.Capacity()\<close>, \<^verbatim>\<open>l.bucket.Available()\<close>.\<close>

definition bucket_TakeAvailable :: "'b Bucket \<Rightarrow> int64 \<Rightarrow> 'b state \<Rightarrow> int64 \<times> 'b state" where
  "bucket_TakeAvailable api n s =
     (case TakeAvailable api n (bucket (limiter s)) of
        (taken, b') \<Rightarrow>
          (taken, emit (Call_TakeAvailable n) (s\<lparr>limiter := (limiter s)\<lparr>bucket := b'\<rparr>\<rparr>)))"

definition bucket_Capacity :: "'b Bucket \<Rightarrow> 'b state \<Rightarrow> int64 \<times> 'b state" where
  "bucket_Capacity api s = (Capacity api (bucket (limiter s)), emit Call_Capacity s)"

definition bucket_Available :: "'b Bucket \<Rightarrow> 'b state \<Rightarrow> int64 \<times> 'b state" where
  "bucket_Available api s =
     (case Available api (bucket (limiter s)) of
        (n, b') \<Rightarrow> (n, emit Call_Available (s\<lparr>limiter := (limiter s)\<lparr>bucket := b'\<rparr>\<rparr>)))"

text \<open>\<^verbatim>\<open>w.Header().Set(key, v)\<close>, \<^verbatim>\<open>h.ServeHTTP(w, r)\<close> and \<^verbatim>\<open>l.responder(w, r)\<close>.\<close>

definition headers_Set :: "string \<Rightarrow> string \<Rightarrow> 'b state \<Rightarrow> 'b state" where
  "headers_Set key v s =
     emit (Call_Header_Set key v)
       (s\<lparr>writer := (writer s)\<lparr>header := Header_Set key v (header (writer s))\<rparr>\<rparr>)"

definition ServeHTTP :: "HandlerFunc \<Rightarrow> Request \<Rightarrow> 'b state \<Rightarrow> 'b state" where
  "ServeHTTP h r s = emit (Call_ServeHTTP (writer s) r) (s\<lparr>writer := h (writer s) r\<rparr>)"

definition call_responder :: "Request \<Rightarrow> 'b state \<Rightarrow> 'b state" where
  "call_responder r s =
     emit (Call_responder (writer s) r) (s\<lparr>writer := responder (limiter s) (writer s) r\<rparr>)"

subsection \<open>capacity, remaining, limit and LimitHTTP\<close>

definition capacity :: "'b Bucket \<Rightarrow> 'b state \<Rightarrow> int64 \<times> 'b state" where
  "capacity api s = bucket_Capacity api s"

definition remaining :: "'b Bucket \<Rightarrow> 'b state \<Rightarrow> int64 \<times> 'b state" where
  "remaining api s =
     (case bucket_Available api s of
        (remaining, s') \<Rightarrow> if 0 <s remaining then (remaining, s') else (0, s'))"

definition limit :: "'b Bucket \<Rightarrow> Request \<Rightarrow> HandlerFunc \<Rightarrow> 'b state \<Rightarrow> 'b state" where
  "limit api r h s =
     (case bucket_TakeAvailable api 1 s of
        (available, s1) \<Rightarrow>
          (case capacity api s1 of
             (c, s2) \<Rightarrow>
               (case remaining api (headers_Set ''X-RateLimit-Limit'' (Itoa c) s2) of
                  (rem, s3) \<Rightarrow>
                    (let s4 = headers_Set ''X-RateLimit-Remaining'' (Itoa rem) s3
                     in if available = 0 then call_responder r s4 else ServeHTTP h r s4))))"

text \<open>
  The two loops of the handler. \<open>Some\<close> is the state at the early \<^verbatim>\<open>return\<close>
  (after \<^verbatim>\<open>h.ServeHTTP(w, r)\<close>); \<open>None\<close> means the loop ran to its end.
\<close>

fun exceptions_loop ::
  "Exception list \<Rightarrow> HandlerFunc \<Rightarrow> Request \<Rightarrow> 'b state \<Rightarrow> 'b state option" where
  "exceptions_loop [] h r s = None"
| "exceptions_loop (exception # rest) h r s =
     (if exception r then Some (ServeHTTP h r s) else exceptions_loop rest h r s)"

fun filters_loop ::
  "Filter list \<Rightarrow> HandlerFunc \<Rightarrow> Request \<Rightarrow> 'b state \<Rightarrow> 'b state option" where
  "filters_loop [] h r s = None"
| "filters_loop (fltr # rest) h r s =
     (if \<not> fltr r then Some (ServeHTTP h r s) else filters_loop rest h r s)"

text \<open>
  \<^verbatim>\<open>l.LimitHTTP(h)\<close> returns the handler; \<open>LimitHTTP api l h w r\<close> is one run of that
  handler on the writer \<open>w\<close> and the request \<open>r\<close>, with \<open>l\<close> the limiter object at
  the time of the call. The run starts with an empty log.
\<close>

definition LimitHTTP ::
  "'b Bucket \<Rightarrow> 'b Limiter \<Rightarrow> HandlerFunc \<Rightarrow> ResponseWriter \<Rightarrow> Request \<Rightarrow> 'b state" where
  "LimitHTTP api l h w r =
     (let s = \<lparr>limiter = l, writer = w, calls = []\<rparr> in
      case exceptions_loop (exceptions l) h r s of
        Some s' \<Rightarrow> s'
      | None \<Rightarrow>
          (case filters_loop (filters l) h r s of
             Some s' \<Rightarrow> s'
           | None \<Rightarrow> limit api r h s))"

subsection \<open>Reading the log of a run\<close>

text \<open>
  A call of the downstream handler is the decision \<open>Forward\<close>, a call of the responder
  is the decision \<open>Deny\<close>. \<open>dispatches\<close> keeps these calls of a log, each with the writer
  and the request it was made with; \<open>takes\<close> keeps the arguments of the calls of
  \<^verbatim>\<open>TakeAvailable\<close>; \<open>header_sets\<close> keeps the header assignments.
\<close>

datatype Decision = Forward | Deny

fun dispatches :: "call list \<Rightarrow> (Decision \<times> ResponseWriter \<times> Request) list" where
  "dispatches [] = []"
| "dispatches (Call_ServeHTTP w r # cs) = (Forward, w, r) # dispatches cs"
| "dispatches (Call_responder w r # cs) = (Deny, w, r) # dispatches cs"
| "dispatches (c # cs) = dispatches cs"

fun takes :: "call list \<Rightarrow> int64 list" where
  "takes [] = []"
| "takes (Call_TakeAvailable n # cs) = n # takes cs"
| "takes (c # cs) = takes cs"

fun header_sets :: "call list \<Rightarrow> (string \<times> string) list" where
  "header_sets [] = []"
| "header_sets (Call_Header_Set key v # cs) = (key, v) # header_sets cs"
| "header_sets (c # cs) = header_sets cs"

subsection \<open>Limiters behind pointers\<close>

text \<open>
  Every function of the limiter has the receiver \<^verbatim>\<open>*Limiter\<close>: limiters live in a
  store, addressed by pointers, and a call through a nil pointer panics. \<open>invoke\<close> runs
  a setter on the limiter at an address; \<open>serve\<close> runs the handler of
  \<^verbatim>\<open>l.LimitHTTP(h)\<close> for the limiter at an address and writes the limiter back (its
  bucket may have changed).
\<close>

type_synonym 'b store = "nat \<rightharpoonup> 'b Limiter"

definition invoke :: "nat \<Rightarrow> ('b Limiter \<Rightarrow> 'b Limiter) \<Rightarrow> 'b store \<Rightarrow> error + 'b store" where
  "invoke p f st = (case st p of None \<Rightarrow> Inl NilPointer | Some l \<Rightarrow> Inr (st(p \<mapsto> f l)))"

definition serve ::
  "'b Bucket \<Rightarrow> nat \<Rightarrow> HandlerFunc \<Rightarrow> ResponseWriter \<Rightarrow> Request \<Rightarrow> 'b store \<Rightarrow>
     error + ('b store \<times> ResponseWriter \<times> call list)" where
  "serve api p h w r st =
     (case st p of
        None \<Rightarrow> Inl NilPointer
      | Some l \<Rightarrow>
          (let s = LimitHTTP api l h w r in Inr (st(p \<mapsto> limiter s), writer s, calls s)))"

subsection \<open>A token bucket as the specification describes it\<close>

text \<open>
  The code of \<^verbatim>\<open>ratelimit.Bucket\<close>, of its constructors \<^verbatim>\<open>NewBucket\<close> and
  \<^verbatim>\<open>NewBucketWithRate\<close> and of its methods belongs to \<^verbatim>\<open>github.com/juju/ratelimit\<close>
  and is not in ratelimit.go. Sections 3 and 4.1 of the specification describe the bucket;
  the definitions of this subsection follow their words. Times and durations are rational
  numbers of seconds, token counts are integers, and the rate (a float in the
  specification) is an exact rational: rounding in floating point is left out.
\<close>

text \<open>
  Modelled from the spec: the refill policy, "one of two variants,
  \<^verbatim>\<open>RatePerSecond(rate: float)\<close> or \<^verbatim>\<open>WindowBased(window: duration, amount: int64)\<close>"
  (the type is declared in juju/ratelimit, not in ratelimit.go).
\<close>

datatype refillPolicy = RatePerSecond rat | WindowBased rat int

text \<open>
  Modelled from the spec: the bucket's data, \<^verbatim>\<open>capacity\<close>, \<^verbatim>\<open>available\<close>,
  \<^verbatim>\<open>refillPolicy\<close> and \<^verbatim>\<open>lastRefillTime\<close> (the struct \<^verbatim>\<open>ratelimit.Bucket\<close> is not in
  ratelimit.go).
\<close>

record TokenBucket =
  tb_capacity :: int
  tb_available :: int
  tb_refillPolicy :: refillPolicy
  tb_lastRefillTime :: rat

text \<open>
  Modelled from the spec: \<^verbatim>\<open>new(policy, capacity)\<close> (the bucket's constructor is not in
  ratelimit.go). It "constructs with \<^verbatim>\<open>available = capacity\<close>" and "fails with
  \<^verbatim>\<open>InvalidConfig\<close> if capacity \<open>\<le>\<close> 0, or rate \<open>\<le>\<close> 0 for \<^verbatim>\<open>RatePerSecond\<close>, or window
  \<open>\<le>\<close> 0 for \<^verbatim>\<open>WindowBased\<close>". \<open>now\<close> is the clock's reading at construction.
\<close>

definition TokenBucket_new :: "rat \<Rightarrow> refillPolicy \<Rightarrow> int \<Rightarrow> error + TokenBucket" where
  "TokenBucket_new now policy cap =
     (if cap \<le> 0 then Inl InvalidConfig
      else if (case policy of RatePerSecond rate \<Rightarrow> rate \<le> 0 | WindowBased window amount \<Rightarrow> window \<le> 0)
      then Inl InvalidConfig
      else Inr \<lparr>tb_capacity = cap, tb_available = cap, tb_refillPolicy = policy,
                tb_lastRefillTime = now\<rparr>)"

text \<open>
  Modelled from the spec: the lazy refill that every access applies first (it is part of
  the bucket's methods, not in ratelimit.go). Rate-based: "\<^verbatim>\<open>elapsed = now -
  lastRefillTime\<close>; \<^verbatim>\<open>newTokens = floor(elapsed.seconds * rate)\<close>; \<^verbatim>\<open>available =
  min(capacity, available + newTokens)\<close>; \<^verbatim>\<open>lastRefillTime\<close> advances by the time
  corresponding to the whole tokens actually credited". Window-based: "if \<^verbatim>\<open>elapsed >=
  window\<close>, \<^verbatim>\<open>available = capacity\<close> and \<^verbatim>\<open>lastRefillTime = now\<close>; no partial credit
  within a window". The amount of the window policy plays no part in this rule.
\<close>

definition refill :: "rat \<Rightarrow> TokenBucket \<Rightarrow> TokenBucket" where
  "refill now b =
     (let elapsed = now - tb_lastRefillTime b in
      case tb_refillPolicy b of
        RatePerSecond rate \<Rightarrow>
          (let newTokens = \<lfloor>elapsed * rate\<rfloor> in
           b\<lparr>tb_available := min (tb_capacity b) (tb_available b + newTokens),
             tb_lastRefillTime := tb_lastRefillTime b + of_int newTokens / rate\<rparr>)
      | WindowBased window amount \<Rightarrow>
          if window \<le> elapsed
          then b\<lparr>tb_available := tb_capacity b, tb_lastRefillTime := now\<rparr>
          else b)"

text \<open>
  Modelled from the spec: \<^verbatim>\<open>takeAvailable(n)\<close> (the method \<^verbatim>\<open>TakeAvailable\<close> is not in
  ratelimit.go). It "first recomputes \<^verbatim>\<open>available\<close> by applying the refill policy, then
  removes \<^verbatim>\<open>min(n, available)\<close> tokens and returns the number actually removed";
  it "never returns a negative value", so the count taken is \<open>max 0 (min n available)\<close>.
\<close>

definition TokenBucket_takeAvailable :: "rat \<Rightarrow> int \<Rightarrow> TokenBucket \<Rightarrow> int \<times> TokenBucket" where
  "TokenBucket_takeAvailable now n b =
     (let b' = refill now b;
          taken = max 0 (min n (tb_available b'))
      in (taken, b'\<lparr>tb_available := tb_available b' - taken\<rparr>))"

text \<open>
  Modelled from the spec: \<^verbatim>\<open>capacity()\<close>, a "pure read, no refill side-effect" (the
  method \<^verbatim>\<open>Capacity\<close> is not in ratelimit.go).
\<close>

definition TokenBucket_capacity :: "TokenBucket \<Rightarrow> int" where
  "TokenBucket_capacity b = tb_capacity b"

text \<open>
  Modelled from the spec: \<^verbatim>\<open>available()\<close>, which "returns current token count after
  applying pending refill" and "performs no consumption" (the method \<^verbatim>\<open>Available\<close> is
  not in ratelimit.go).
\<close>

definition TokenBucket_available :: "rat \<Rightarrow> TokenBucket \<Rightarrow> int \<times> TokenBucket" where
  "TokenBucket_available now b = (let b' = refill now b in (tb_available b', b'))"

text \<open>
  A bucket on which a refill at the time \<open>now\<close> changes nothing: its count is within
  bounds and no whole token (resp. no whole window) has elapsed since its last refill.
\<close>

definition stable_at :: "rat \<Rightarrow> TokenBucket \<Rightarrow> bool" where
  "stable_at now b =
     (0 \<le> tb_available b \<and> tb_available b \<le> tb_capacity b \<and>
      (case tb_refillPolicy b of
         RatePerSecond rate \<Rightarrow> 0 < rate \<and> \<lfloor>(now - tb_lastRefillTime b) * rate\<rfloor> = 0
       | WindowBased window amount \<Rightarrow> 0 < window \<and> now - tb_lastRefillTime b < window))"

text \<open>A run of \<^verbatim>\<open>takeAvailable\<close> calls, all at the time \<open>now\<close>: the counts taken, in order.\<close>

fun takeAvailable_seq :: "rat \<Rightarrow> int list \<Rightarrow> TokenBucket \<Rightarrow> int list \<times> TokenBucket" where
  "takeAvailable_seq now [] b = ([], b)"
| "takeAvailable_seq now (n # ns) b =
     (case TokenBucket_takeAvailable now n b of
        (taken, b') \<Rightarrow>
          (case takeAvailable_seq now ns b' of (rest, b'') \<Rightarrow> (taken # rest, b'')))"

text \<open>
  Modelled from the spec: \<^verbatim>\<open>ratelimit.NewBucket(timeWindow, capacity)\<close> (not in
  ratelimit.go). By section 6 the parameters \<^verbatim>\<open>(timeWindow, capacity)\<close> select the
  window-based policy. A \<^verbatim>\<open>time.Duration\<close> counts nanoseconds; the capacity is also
  passed as the policy's amount, which the refill rule does not read.
\<close>

definition NewBucket :: "rat \<Rightarrow> int64 \<Rightarrow> int64 \<Rightarrow> error + TokenBucket" where
  "NewBucket now fillInterval cap =
     TokenBucket_new now (WindowBased (of_int (sint fillInterval) / 1000000000) (sint cap)) (sint cap)"

text \<open>
  Modelled from the spec: \<^verbatim>\<open>ratelimit.NewBucketWithRate(rate, capacity)\<close> (not in
  ratelimit.go). By section 6 the parameters \<^verbatim>\<open>(ratePerSecond, capacity)\<close> select the
  rate-based policy.
\<close>

definition NewBucketWithRate :: "rat \<Rightarrow> rat \<Rightarrow> int64 \<Rightarrow> error + TokenBucket" where
  "NewBucketWithRate now rate cap = TokenBucket_new now (RatePerSecond rate) (sint cap)"

text \<open>
  Modelled from the spec: the three methods of the bucket as the limiter sees them, during
  a request in which \<^verbatim>\<open>TakeAvailable\<close> reads the clock as \<open>t1\<close> and \<^verbatim>\<open>Available\<close>
  reads it as \<open>t2\<close> (the methods are not in ratelimit.go). Counts cross the interface as
  \<^verbatim>\<open>int64\<close>.
\<close>

definition TokenBucket_at :: "rat \<Rightarrow> rat \<Rightarrow> TokenBucket Bucket" where
  "TokenBucket_at t1 t2 =
     \<lparr>TakeAvailable = (\<lambda>n b. case TokenBucket_takeAvailable t1 (sint n) b of
                                (taken, b') \<Rightarrow> (word_of_int taken, b')),
      Capacity = (\<lambda>b. word_of_int (TokenBucket_capacity b)),
      Available = (\<lambda>b. case TokenBucket_available t2 b of (n, b') \<Rightarrow> (word_of_int n, b'))\<rparr>"

subsection \<open>Concrete inputs\<close>

text \<open>
  A limiter over a rate-based bucket of capacity 2 (one token per second), limiting GET
  requests only and exempting requests that carry \<^verbatim>\<open>X-Internal: true\<close>; a fresh response
  writer; a downstream handler that writes a body; three requests.
\<close>

definition example_bucket :: TokenBucket where
  "example_bucket =
     \<lparr>tb_capacity = 2, tb_available = 2, tb_refillPolicy = RatePerSecond 1, tb_lastRefillTime = 0\<rparr>"

definition internal :: Exception where
  "internal r = ((''X-Internal'', ''true'') \<in> set (RequestHeader r))"

definition only_GET :: Filter where
  "only_GET r = (Method r = ''GET'')"

definition example_limiter :: "TokenBucket Limiter" where
  "example_limiter =
     \<lparr>bucket = example_bucket, responder = RateLimitResponder, filters = [only_GET],
      exceptions = [internal]\<rparr>"

definition example_writer :: ResponseWriter where
  "example_writer = \<lparr>header = Map.empty, status = None, body = []\<rparr>"

definition hello :: HandlerFunc where
  "hello rw r = Write ''hello'' rw"

definition GET_request :: Request where
  "GET_request = \<lparr>Method = ''GET'', Path = ''/'', RequestHeader = []\<rparr>"

definition POST_request :: Request where
  "POST_request = \<lparr>Method = ''POST'', Path = ''/'', RequestHeader = []\<rparr>"

definition internal_request :: Request where
  "internal_request =
     \<lparr>Method = ''GET'', Path = ''/'', RequestHeader = [(''X-Internal'', ''true'')]\<rparr>"

definition empty_bucket :: TokenBucket where
  "empty_bucket = example_bucket\<lparr>tb_available := 0\<rparr>"

text \<open>A custom responder, and a store that holds two limiters with an empty bucket each.\<close>

definition slow_down :: HandlerFunc where
  "slow_down rw r = Write ''slow down'' (WriteHeader 503 rw)"

definition two_limiters :: "TokenBucket store" where
  "two_limiters =
     [0 \<mapsto> example_limiter\<lparr>bucket := empty_bucket\<rparr>, 1 \<mapsto> example_limiter\<lparr>bucket := empty_bucket\<rparr>]"

section \<open>Lemmas\<close>

subsection \<open>Header maps and decimal strings\<close>

lemma canonical_keys_distinct:
  "CanonicalMIMEHeaderKey ''X-RateLimit-Limit'' \<noteq> CanonicalMIMEHeaderKey ''X-RateLimit-Remaining''"
  by code_simp

lemma Header_Get_Set_same: "Header_Get (Header_Set key v hdr) key = v"
  by (simp add: Header_Get_def Header_Set_def)

lemma Header_Get_Set_other:
  "CanonicalMIMEHeaderKey key' \<noteq> CanonicalMIMEHeaderKey key \<Longrightarrow>
   Header_Get (Header_Set key' v hdr) key = Header_Get hdr key"
  by (simp add: Header_Get_def Header_Set_def)

lemma sint_remaining: "sint (if 0 <s (n :: int64) then n else 0) = max 0 (sint n)"
  by (simp add: word_sless_alt max_def)

lemma digit_value_digit: "d < 10 \<Longrightarrow> digit_value (digit d) = Some d"
proof -
  assume "d < 10"
  then have "d = 0 \<or> d = 1 \<or> d = 2 \<or> d = 3 \<or> d = 4 \<or> d = 5 \<or> d = 6 \<or> d = 7 \<or> d = 8 \<or> d = 9"
    by arith
  then show ?thesis
    by (elim disjE) (simp_all add: digit_def digit_value_def)
qed

lemma parse_digits_append:
  "parse_digits acc (xs @ ys) =
     (case parse_digits acc xs of None \<Rightarrow> None | Some a \<Rightarrow> parse_digits a ys)"
  by (induction xs arbitrary: acc) (auto split: option.splits)

lemma parse_digits_formatBits: "parse_digits 0 (formatBits n) = Some n"
proof (induction n rule: formatBits.induct)
  case (1 n)
  show ?case
  proof (cases "n < 10")
    case True
    then have "formatBits n = [digit n]" by (simp add: formatBits.simps [of n])
    with True show ?thesis by (simp add: digit_value_digit)
  next
    case False
    from 1 [OF False] have "parse_digits 0 (formatBits (n div 10)) = Some (n div 10)" .
    moreover have "formatBits n = formatBits (n div 10) @ [digit (n mod 10)]"
      using False by (simp add: formatBits.simps [of n])
    ultimately show ?thesis
      by (simp add: parse_digits_append digit_value_digit)
  qed
qed

lemma digit_not_minus: "d < 10 \<Longrightarrow> digit d \<noteq> CHR ''-''"
proof -
  assume "d < 10"
  then have "d = 0 \<or> d = 1 \<or> d = 2 \<or> d = 3 \<or> d = 4 \<or> d = 5 \<or> d = 6 \<or> d = 7 \<or> d = 8 \<or> d = 9"
    by arith
  then show ?thesis
    by (elim disjE) (simp_all add: digit_def)
qed

lemma formatBits_hd: "\<exists>c cs. formatBits n = c # cs \<and> c \<noteq> CHR ''-''"
proof (induction n rule: formatBits.induct)
  case (1 n)
  show ?case
  proof (cases "n < 10")
    case True
    then have "formatBits n = [digit n]" by (simp add: formatBits.simps [of n])
    with True show ?thesis by (simp add: digit_not_minus)
  next
    case False
    from 1 [OF False] obtain c cs where "formatBits (n div 10) = c # cs" "c \<noteq> CHR ''-''"
      by blast
    moreover have "formatBits n = formatBits (n div 10) @ [digit (n mod 10)]"
      using False by (simp add: formatBits.simps [of n])
    ultimately show ?thesis by simp
  qed
qed

lemma parse_decimal_FormatInt: "parse_decimal (FormatInt i) = Some i"
proof (cases "i < 0")
  case True
  obtain c cs where "formatBits (nat (- i)) = c # cs" using formatBits_hd by blast
  then show ?thesis
    using True parse_digits_formatBits [of "nat (- i)"]
    by (simp add: parse_decimal_def FormatInt_def)
next
  case False
  obtain c cs where "formatBits (nat i) = c # cs" "c \<noteq> CHR ''-''" using formatBits_hd by blast
  then show ?thesis
    using False parse_digits_formatBits [of "nat i"]
    by (simp add: parse_decimal_def FormatInt_def)
qed

lemma RateLimitResponder_writes:
  "body (RateLimitResponder rw r) = body rw @ ''Too Many Requests'' \<and>
   header (RateLimitResponder rw r) = header rw \<and>
   status (RateLimitResponder rw r) = (case status rw of None \<Rightarrow> Some 429 | Some code \<Rightarrow> Some code)"
  by (simp add: RateLimitResponder_def Write_def WriteHeader_def Let_def split: option.splits)

subsection \<open>The handler, path by path\<close>

lemma exceptions_loop_Some:
  "\<exists>e\<in>set es. e r \<Longrightarrow> exceptions_loop es h r s = Some (ServeHTTP h r s)"
  by (induction es) auto

lemma exceptions_loop_None:
  "\<forall>e\<in>set es. \<not> e r \<Longrightarrow> exceptions_loop es h r s = None"
  by (induction es) auto

lemma filters_loop_Some:
  "\<exists>f\<in>set fs. \<not> f r \<Longrightarrow> filters_loop fs h r s = Some (ServeHTTP h r s)"
  by (induction fs) auto

lemma filters_loop_None:
  "\<forall>f\<in>set fs. f r \<Longrightarrow> filters_loop fs h r s = None"
  by (induction fs) auto

lemma LimitHTTP_exception:
  "\<exists>e\<in>set (exceptions l). e r \<Longrightarrow>
   LimitHTTP api l h w r = \<lparr>limiter = l, writer = h w r, calls = [Call_ServeHTTP w r]\<rparr>"
  by (simp add: LimitHTTP_def exceptions_loop_Some ServeHTTP_def emit_def Let_def)

lemma LimitHTTP_filter:
  "\<forall>e\<in>set (exceptions l). \<not> e r \<Longrightarrow> \<exists>f\<in>set (filters l). \<not> f r \<Longrightarrow>
   LimitHTTP api l h w r = \<lparr>limiter = l, writer = h w r, calls = [Call_ServeHTTP w r]\<rparr>"
  by (simp add: LimitHTTP_def exceptions_loop_None filters_loop_Some ServeHTTP_def emit_def Let_def)

lemma LimitHTTP_bypass_dispatch:
  assumes "(\<exists>e\<in>set (exceptions l). e r) \<or> (\<exists>f\<in>set (filters l). \<not> f r)"
  shows "LimitHTTP api l h w r = \<lparr>limiter = l, writer = h w r, calls = [Call_ServeHTTP w r]\<rparr>"
proof (cases "\<exists>e\<in>set (exceptions l). e r")
  case True
  then show ?thesis by (rule LimitHTTP_exception)
next
  case False
  then have e: "\<forall>e\<in>set (exceptions l). \<not> e r" by blast
  from False assms have "\<exists>f\<in>set (filters l). \<not> f r" by blast
  then show ?thesis by (rule LimitHTTP_filter [OF e])
qed

lemma LimitHTTP_limit:
  "\<forall>e\<in>set (exceptions l). \<not> e r \<Longrightarrow> \<forall>f\<in>set (filters l). f r \<Longrightarrow>
   LimitHTTP api l h w r = limit api r h \<lparr>limiter = l, writer = w, calls = []\<rparr>"
  by (simp add: LimitHTTP_def exceptions_loop_None filters_loop_None Let_def)

lemma limit_eq:
  assumes "TakeAvailable api 1 (bucket l) = (taken, b1)"
      and "Available api b1 = (n, b2)"
  shows "limit api r h \<lparr>limiter = l, writer = w, calls = []\<rparr> =
    (let c = Capacity api b1;
         rem = (if 0 <s n then n else 0);
         w' = w\<lparr>header := Header_Set ''X-RateLimit-Remaining'' (Itoa rem)
                          (Header_Set ''X-RateLimit-Limit'' (Itoa c) (header w))\<rparr>
     in \<lparr>limiter = l\<lparr>bucket := b2\<rparr>,
         writer = (if taken = 0 then responder l else h) w' r,
         calls = [Call_TakeAvailable 1, Call_Capacity,
                  Call_Header_Set ''X-RateLimit-Limit'' (Itoa c),
                  Call_Available,
                  Call_Header_Set ''X-RateLimit-Remaining'' (Itoa rem),
                  if taken = 0 then Call_responder w' r else Call_ServeHTTP w' r]\<rparr>)"
  using assms
  by (simp add: limit_def bucket_TakeAvailable_def capacity_def bucket_Capacity_def
      remaining_def bucket_Available_def headers_Set_def call_responder_def ServeHTTP_def
      emit_def Let_def)

lemma LimitHTTP_limited_eq:
  assumes "\<forall>e\<in>set (exceptions l). \<not> e r" and "\<forall>f\<in>set (filters l). f r"
      and "TakeAvailable api 1 (bucket l) = (taken, b1)"
      and "Available api b1 = (n, b2)"
  shows "LimitHTTP api l h w r =
    (let c = Capacity api b1;
         rem = (if 0 <s n then n else 0);
         w' = w\<lparr>header := Header_Set ''X-RateLimit-Remaining'' (Itoa rem)
                          (Header_Set ''X-RateLimit-Limit'' (Itoa c) (header w))\<rparr>
     in \<lparr>limiter = l\<lparr>bucket := b2\<rparr>,
         writer = (if taken = 0 then responder l else h) w' r,
         calls = [Call_TakeAvailable 1, Call_Capacity,
                  Call_Header_Set ''X-RateLimit-Limit'' (Itoa c),
                  Call_Available,
                  Call_Header_Set ''X-RateLimit-Remaining'' (Itoa rem),
                  if taken = 0 then Call_responder w' r else Call_ServeHTTP w' r]\<rparr>)"
  using assms by (simp add: LimitHTTP_limit limit_eq)

lemma LimitHTTP_limited_takes:
  assumes "\<forall>e\<in>set (exceptions l). \<not> e r" and "\<forall>f\<in>set (filters l). f r"
  shows "takes (calls (LimitHTTP api l h w r)) = [1]"
proof -
  obtain taken b1 where t: "TakeAvailable api 1 (bucket l) = (taken, b1)" by fastforce
  obtain n b2 where a: "Available api b1 = (n, b2)" by fastforce
  show ?thesis
    by (simp add: LimitHTTP_limited_eq [OF assms t a] Let_def)
qed

lemma LimitHTTP_limited_dispatch:
  assumes "\<forall>e\<in>set (exceptions l). \<not> e r" and "\<forall>f\<in>set (filters l). f r"
      and "TakeAvailable api 1 (bucket l) = (taken, b1)"
  shows "\<exists>w'. dispatches (calls (LimitHTTP api l h w r)) =
            [(if taken = 0 then Deny else Forward, w', r)] \<and>
          writer (LimitHTTP api l h w r) = (if taken = 0 then responder l else h) w' r \<and>
          status w' = status w \<and> body w' = body w"
proof -
  obtain n b2 where a: "Available api b1 = (n, b2)" by fastforce
  show ?thesis
    by (simp add: LimitHTTP_limited_eq [OF assms a] Let_def)
qed

lemma LimitHTTP_limited_headers:
  assumes "\<forall>e\<in>set (exceptions l). \<not> e r" and "\<forall>f\<in>set (filters l). f r"
      and "TakeAvailable api 1 (bucket l) = (taken, b1)"
      and "Available api b1 = (n, b2)"
  shows "header_sets (calls (LimitHTTP api l h w r)) =
           [(''X-RateLimit-Limit'', FormatInt (sint (Capacity api b1))),
            (''X-RateLimit-Remaining'', FormatInt (max 0 (sint n)))] \<and>
         (\<exists>w'. dispatches (calls (LimitHTTP api l h w r)) =
                  [(if taken = 0 then Deny else Forward, w', r)] \<and>
               Header_Get (header w') ''X-RateLimit-Limit'' = FormatInt (sint (Capacity api b1)) \<and>
               Header_Get (header w') ''X-RateLimit-Remaining'' = FormatInt (max 0 (sint n)))"
  by (simp add: LimitHTTP_limited_eq [OF assms] Let_def Itoa_def sint_remaining
      Header_Get_Set_same Header_Get_Set_other canonical_keys_distinct [symmetric])

lemma LimitHTTP_deny:
  assumes "\<forall>e\<in>set (exceptions l). \<not> e r" and "\<forall>f\<in>set (filters l). f r"
      and "fst (TakeAvailable api 1 (bucket l)) = 0"
  shows "\<exists>w'. dispatches (calls (LimitHTTP api l h w r)) = [(Deny, w', r)] \<and>
          writer (LimitHTTP api l h w r) = responder l w' r \<and>
          status w' = status w \<and> body w' = body w"
proof -
  obtain b1 where t: "TakeAvailable api 1 (bucket l) = (0, b1)"
    using assms(3) by (cases "TakeAvailable api 1 (bucket l)") simp
  from LimitHTTP_limited_dispatch [OF assms(1,2) t, of h w] show ?thesis by simp
qed

lemma LimitHTTP_responder: "responder (limiter (LimitHTTP api l h w r)) = responder l"
proof (cases "(\<exists>e\<in>set (exceptions l). e r) \<or> (\<exists>f\<in>set (filters l). \<not> f r)")
  case True
  then show ?thesis by (simp add: LimitHTTP_bypass_dispatch)
next
  case False
  then have e: "\<forall>e\<in>set (exceptions l). \<not> e r" and f: "\<forall>f\<in>set (filters l). f r" by blast+
  obtain taken b1 where t: "TakeAvailable api 1 (bucket l) = (taken, b1)" by fastforce
  obtain n b2 where a: "Available api b1 = (n, b2)" by fastforce
  show ?thesis by (simp add: LimitHTTP_limited_eq [OF e f t a] Let_def)
qed


subsection \<open>Constructors and the store\<close>

lemma NewTimeLimiter_responder:
  "NewTimeLimiter newBucket current timeWindow cap = Inr l \<Longrightarrow>
   responder l = current \<and> filters l = [] \<and> exceptions l = []"
  by (auto simp: NewTimeLimiter_def split: sum.splits)

lemma NewRateLimiter_responder:
  "NewRateLimiter newBucketWithRate current rate cap = Inr l \<Longrightarrow>
   responder l = current \<and> filters l = [] \<and> exceptions l = []"
  by (auto simp: NewRateLimiter_def split: sum.splits)

lemma window_nonpos: "(of_int x / 1000000000 \<le> (0::rat)) = (x \<le> 0)"
  by (simp add: divide_le_0_iff)

lemma NewTimeLimiter_spec:
  "NewTimeLimiter (NewBucket now) current timeWindow cap =
     (if sint cap \<le> 0 \<or> sint timeWindow \<le> 0 then Inl InvalidConfig
      else Inr \<lparr>bucket = \<lparr>tb_capacity = sint cap, tb_available = sint cap,
                  tb_refillPolicy = WindowBased (of_int (sint timeWindow) / 1000000000) (sint cap),
                  tb_lastRefillTime = now\<rparr>,
                responder = current, filters = [], exceptions = []\<rparr>)"
  by (simp add: NewTimeLimiter_def NewBucket_def TokenBucket_new_def window_nonpos
      del: of_int_sint)

lemma NewRateLimiter_spec:
  "NewRateLimiter (NewBucketWithRate now) current rate cap =
     (if sint cap \<le> 0 \<or> rate \<le> 0 then Inl InvalidConfig
      else Inr \<lparr>bucket = \<lparr>tb_capacity = sint cap, tb_available = sint cap,
                  tb_refillPolicy = RatePerSecond rate, tb_lastRefillTime = now\<rparr>,
                responder = current, filters = [], exceptions = []\<rparr>)"
  by (simp add: NewRateLimiter_def NewBucketWithRate_def TokenBucket_new_def)

lemma invoke_Some: "st p = Some l \<Longrightarrow> invoke p f st = Inr (st(p \<mapsto> f l))"
  by (simp add: invoke_def)

lemma invoke_other: "invoke p f st = Inr st' \<Longrightarrow> q \<noteq> p \<Longrightarrow> st' q = st q"
  by (auto simp: invoke_def split: option.splits)

lemma serve_other:
  assumes "st' q = st q"
  shows "map_sum id snd (serve api q h w r st') = map_sum id snd (serve api q h w r st)"
  by (simp add: serve_def assms Let_def split: option.splits)

subsection \<open>The token bucket of the specification\<close>

lemma refill_stable: "stable_at now b \<Longrightarrow> refill now b = b"
  by (cases "tb_refillPolicy b") (simp_all add: stable_at_def refill_def)

lemma takeAvailable_stable:
  assumes "stable_at now b"
  shows "TokenBucket_takeAvailable now n b =
           (max 0 (min n (tb_available b)),
            b\<lparr>tb_available := tb_available b - max 0 (min n (tb_available b))\<rparr>)"
  by (simp add: TokenBucket_takeAvailable_def refill_stable [OF assms] Let_def)

lemma stable_at_take:
  assumes "stable_at now b"
  shows "stable_at now (b\<lparr>tb_available := tb_available b - max 0 (min n (tb_available b))\<rparr>)"
  using assms by (cases "tb_refillPolicy b") (auto simp: stable_at_def)

lemma takeAvailable_seq_stable:
  "stable_at now b \<Longrightarrow>
   sum_list (fst (takeAvailable_seq now ns b)) =
     tb_available b - tb_available (snd (takeAvailable_seq now ns b)) \<and>
   stable_at now (snd (takeAvailable_seq now ns b)) \<and>
   tb_capacity (snd (takeAvailable_seq now ns b)) = tb_capacity b"
proof (induction ns arbitrary: b)
  case Nil
  then show ?case by simp
next
  case (Cons n ns)
  let ?k = "max 0 (min n (tb_available b))"
  let ?b' = "b\<lparr>tb_available := tb_available b - ?k\<rparr>"
  have t: "TokenBucket_takeAvailable now n b = (?k, ?b')"
    by (rule takeAvailable_stable [OF Cons.prems])
  have i: "stable_at now ?b'" by (rule stable_at_take [OF Cons.prems])
  obtain rest b'' where r: "takeAvailable_seq now ns ?b' = (rest, b'')" by fastforce
  from Cons.IH [OF i] r show ?case
    by (simp add: t)
qed

lemma floor_fraction: "\<lfloor>x - of_int \<lfloor>x\<rfloor>\<rfloor> = (0::int)" for x :: rat
  by simp

lemma refill_fresh:
  assumes "TokenBucket_new t0 policy cap = Inr b" and "t0 \<le> now"
  shows "stable_at now (refill now b) \<and> tb_available (refill now b) = cap \<and>
         tb_capacity (refill now b) = cap"
proof (cases policy)
  case (RatePerSecond rate)
  with assms have b: "b = \<lparr>tb_capacity = cap, tb_available = cap,
      tb_refillPolicy = RatePerSecond rate, tb_lastRefillTime = t0\<rparr>"
    and pos: "0 < cap" "0 < rate"
    by (auto simp: TokenBucket_new_def split: if_splits)
  let ?N = "\<lfloor>(now - t0) * rate\<rfloor>"
  have N: "0 \<le> ?N" using assms(2) pos by simp
  have "(now - (t0 + of_int ?N / rate)) * rate = (now - t0) * rate - of_int ?N"
    using pos by (simp add: field_simps)
  then have "\<lfloor>(now - (t0 + of_int ?N / rate)) * rate\<rfloor> = 0"
    by (simp only: floor_fraction)
  with N pos show ?thesis
    by (simp add: b refill_def stable_at_def Let_def)
next
  case (WindowBased window amount)
  with assms have b: "b = \<lparr>tb_capacity = cap, tb_available = cap,
      tb_refillPolicy = WindowBased window amount, tb_lastRefillTime = t0\<rparr>"
    and pos: "0 < cap" "0 < window"
    by (auto simp: TokenBucket_new_def split: if_splits)
  then show ?thesis
    by (simp add: refill_def stable_at_def Let_def)
qed

lemma takeAvailable_seq_refill:
  "refill now (refill now b) = refill now b \<Longrightarrow>
   fst (takeAvailable_seq now ns (refill now b)) = fst (takeAvailable_seq now ns b) \<and>
   (ns \<noteq> [] \<longrightarrow> snd (takeAvailable_seq now ns (refill now b)) = snd (takeAvailable_seq now ns b))"
  by (cases ns) (simp_all add: TokenBucket_takeAvailable_def Let_def)

lemma takeAvailable_seq_nonneg:
  "taken \<in> set (fst (takeAvailable_seq now ns b)) \<Longrightarrow> 0 \<le> taken"
proof (induction ns arbitrary: b)
  case Nil
  then show ?case by simp
next
  case (Cons n ns)
  obtain k b' where t: "TokenBucket_takeAvailable now n b = (k, b')" by fastforce
  obtain rest b'' where r: "takeAvailable_seq now ns b' = (rest, b'')" by fastforce
  from t have k: "0 \<le> k" by (auto simp: TokenBucket_takeAvailable_def Let_def)
  from Cons.prems t r have "taken = k \<or> taken \<in> set (fst (takeAvailable_seq now ns b'))"
    by auto
  with k Cons.IH show ?case by blast
qed

lemma TokenBucket_at_take:
  "\<exists>k. (k = 0 \<or> k = 1) \<and>
     TakeAvailable (TokenBucket_at t1 t2) 1 b =
       (word_of_int k, (refill t1 b)\<lparr>tb_available := tb_available (refill t1 b) - k\<rparr>)"
proof -
  let ?k = "max 0 (min 1 (tb_available (refill t1 b)))"
  have "?k = 0 \<or> ?k = 1" by auto
  moreover have "TakeAvailable (TokenBucket_at t1 t2) 1 b =
       (word_of_int ?k, (refill t1 b)\<lparr>tb_available := tb_available (refill t1 b) - ?k\<rparr>)"
    by (simp add: TokenBucket_at_def TokenBucket_takeAvailable_def Let_def)
  ultimately show ?thesis by blast
qed




subsection \<open>The concrete inputs\<close>

lemma example_take:
  "TakeAvailable (TokenBucket_at 0 0) 1 example_bucket = (1, example_bucket\<lparr>tb_available := 1\<rparr>)"
  by (simp add: TokenBucket_at_def TokenBucket_takeAvailable_def refill_def example_bucket_def
      Let_def)

lemma example_available:
  "Available (TokenBucket_at 0 0) (example_bucket\<lparr>tb_available := 1\<rparr>) =
     (1, example_bucket\<lparr>tb_available := 1\<rparr>)"
  by (simp add: TokenBucket_at_def TokenBucket_available_def refill_def example_bucket_def
      Let_def)

lemma empty_take: "TakeAvailable (TokenBucket_at 0 0) 1 empty_bucket = (0, empty_bucket)"
  by (simp add: TokenBucket_at_def TokenBucket_takeAvailable_def refill_def example_bucket_def
      empty_bucket_def Let_def)

lemma empty_available: "Available (TokenBucket_at 0 0) empty_bucket = (0, empty_bucket)"
  by (simp add: TokenBucket_at_def TokenBucket_available_def refill_def example_bucket_def
      empty_bucket_def Let_def)

lemma example_no_exception: "\<forall>e\<in>set (exceptions (example_limiter\<lparr>bucket := b\<rparr>)). \<not> e GET_request"
  by (simp add: example_limiter_def internal_def GET_request_def)

lemma example_filters_pass: "\<forall>f\<in>set (filters (example_limiter\<lparr>bucket := b\<rparr>)). f GET_request"
  by (simp add: example_limiter_def only_GET_def GET_request_def)


text \<open>
  Two runs of the specification's section 8. Three requests back to back on a bucket of
  capacity 2: forwarded, forwarded, denied with status 429 and zero tokens reported as
  remaining. And a window of one minute with capacity 5: once the five tokens are taken,
  a request 61 seconds later is forwarded and leaves four tokens.
\<close>

lemma scenario_back_to_back:
  "(let A = TokenBucket_at 0 0;
        l0 = \<lparr>bucket = example_bucket, responder = RateLimitResponder, filters = [],
              exceptions = []\<rparr>;
        s1 = LimitHTTP A l0 hello example_writer GET_request;
        s2 = LimitHTTP A (limiter s1) hello example_writer GET_request;
        s3 = LimitHTTP A (limiter s2) hello example_writer GET_request
    in map fst (dispatches (calls s1) @ dispatches (calls s2) @ dispatches (calls s3)) =
         [Forward, Forward, Deny] \<and>
       header_sets (calls s3) =
         [(''X-RateLimit-Limit'', ''2''), (''X-RateLimit-Remaining'', ''0'')] \<and>
       status (writer s3) = Some 429)"
  by code_simp

lemma scenario_window_reset:
  "(case TokenBucket_new 0 (WindowBased 60 5) 5 of
      Inl e \<Rightarrow> False
    | Inr b0 \<Rightarrow>
        (let (taken, b) = takeAvailable_seq 0 [5] b0;
             l = \<lparr>bucket = b, responder = RateLimitResponder, filters = [], exceptions = []\<rparr>;
             s = LimitHTTP (TokenBucket_at 61 61) l hello example_writer GET_request
         in taken = [5] \<and> tb_available b = 0 \<and>
            map fst (dispatches (calls s)) = [Forward] \<and>
            tb_available (bucket (limiter s)) = 4))"
  by code_simp

section \<open>Properties of the limiter\<close>

subsection \<open>The bucket step\<close>

text \<open>
  C1. A request for which no exception predicate returns true and every filter predicate
  returns true reaches the bucket step. There the handler calls \<^verbatim>\<open>TakeAvailable(1)\<close>,
  once, and makes exactly one dispatch: the responder if the bucket returned 0 (decision
  Deny), the downstream handler otherwise (decision Forward). The writer that results is
  the one the dispatched function returns, so the other function has not run. This holds
  for every bucket.
\<close>

theorem bucket_step_decides:
  assumes "\<forall>e\<in>set (exceptions l). \<not> e r" and "\<forall>f\<in>set (filters l). f r"
      and "TakeAvailable api 1 (bucket l) = (taken, b1)"
  shows "takes (calls (LimitHTTP api l h w r)) = [1] \<and>
         (\<exists>w'. dispatches (calls (LimitHTTP api l h w r)) =
                  [(if taken = 0 then Deny else Forward, w', r)] \<and>
               writer (LimitHTTP api l h w r) = (if taken = 0 then responder l else h) w' r)"
  using LimitHTTP_limited_takes [OF assms(1,2)] LimitHTTP_limited_dispatch [OF assms]
  by blast

theorem bucket_step_decides_witness:
  "(\<exists>w'. dispatches (calls (LimitHTTP (TokenBucket_at 0 0) (example_limiter\<lparr>bucket := example_bucket\<rparr>)
              hello example_writer GET_request)) = [(Forward, w', GET_request)] \<and>
          writer (LimitHTTP (TokenBucket_at 0 0) (example_limiter\<lparr>bucket := example_bucket\<rparr>)
              hello example_writer GET_request) = hello w' GET_request) \<and>
   (\<exists>w'. dispatches (calls (LimitHTTP (TokenBucket_at 0 0) (example_limiter\<lparr>bucket := empty_bucket\<rparr>)
              hello example_writer GET_request)) = [(Deny, w', GET_request)] \<and>
          writer (LimitHTTP (TokenBucket_at 0 0) (example_limiter\<lparr>bucket := empty_bucket\<rparr>)
              hello example_writer GET_request) = RateLimitResponder w' GET_request)"
  using
    bucket_step_decides [OF example_no_exception example_filters_pass, of "TokenBucket_at 0 0"
      example_bucket 1 "example_bucket\<lparr>tb_available := 1\<rparr>" hello example_writer]
    bucket_step_decides [OF example_no_exception example_filters_pass, of "TokenBucket_at 0 0"
      empty_bucket 0 empty_bucket hello example_writer]
  by (simp add: example_take empty_take) (simp add: example_limiter_def)

subsection \<open>Bypassing the limiter\<close>

text \<open>
  C2. If some exception predicate of the limiter returns true for the request, the run of
  the handler is exactly one call of the downstream handler, made with the writer as it
  was received: the writer that results is the downstream handler's, the limiter (and with
  it the bucket) is unchanged, and the log holds neither a call of \<^verbatim>\<open>TakeAvailable\<close> nor
  a header assignment. Predicates are pure, so which of several matching exceptions comes
  first in the registration order does not show in the result.
\<close>

theorem exception_bypasses_limiter:
  assumes "\<exists>e\<in>set (exceptions l). e r"
  shows "LimitHTTP api l h w r = \<lparr>limiter = l, writer = h w r, calls = [Call_ServeHTTP w r]\<rparr>"
  using assms by (rule LimitHTTP_exception)

theorem exception_bypasses_limiter_witness:
  "(\<exists>e\<in>set (exceptions example_limiter). e internal_request) \<and>
   dispatches (calls (LimitHTTP (TokenBucket_at 0 0) example_limiter hello example_writer
       internal_request))
     = [(Forward, example_writer, internal_request)] \<and>
   tb_available (bucket (limiter (LimitHTTP (TokenBucket_at 0 0) example_limiter hello
       example_writer internal_request))) = 2 \<and>
   body (writer (LimitHTTP (TokenBucket_at 0 0) example_limiter hello example_writer
       internal_request)) = ''hello''"
proof -
  have ex: "\<exists>e\<in>set (exceptions example_limiter). e internal_request"
    by (simp add: example_limiter_def internal_def internal_request_def)
  show ?thesis
    using ex exception_bypasses_limiter [OF ex, of "TokenBucket_at 0 0" hello example_writer]
    by (simp add: example_limiter_def example_bucket_def hello_def example_writer_def
        Write_def WriteHeader_def)
qed

text \<open>
  C3. If no exception predicate returns true and some filter predicate returns false, the
  run is again exactly one call of the downstream handler with the untouched writer, and
  the limiter and its bucket are unchanged. And when no exception matches, the bucket is
  asked for a token if and only if every filter returns true.
\<close>

theorem failing_filter_bypasses_limiter:
  assumes "\<forall>e\<in>set (exceptions l). \<not> e r"
  shows "((\<exists>f\<in>set (filters l). \<not> f r) \<longrightarrow>
            LimitHTTP api l h w r = \<lparr>limiter = l, writer = h w r, calls = [Call_ServeHTTP w r]\<rparr>) \<and>
         (takes (calls (LimitHTTP api l h w r)) \<noteq> [] \<longleftrightarrow> (\<forall>f\<in>set (filters l). f r))"
proof (cases "\<forall>f\<in>set (filters l). f r")
  case True
  have "takes (calls (LimitHTTP api l h w r)) = [1]"
    by (rule LimitHTTP_limited_takes [OF assms True])
  then have "takes (calls (LimitHTTP api l h w r)) \<noteq> []" by simp
  with True show ?thesis by blast
next
  case False
  then have "\<exists>f\<in>set (filters l). \<not> f r" by blast
  then have eq: "LimitHTTP api l h w r = \<lparr>limiter = l, writer = h w r, calls = [Call_ServeHTTP w r]\<rparr>"
    by (rule LimitHTTP_filter [OF assms])
  have "takes (calls (LimitHTTP api l h w r)) = []" by (simp add: eq)
  with False eq show ?thesis by blast
qed

theorem failing_filter_bypasses_limiter_witness:
  "\<not> internal POST_request \<and> \<not> only_GET POST_request \<and>
   LimitHTTP (TokenBucket_at 0 0) example_limiter hello example_writer POST_request =
     \<lparr>limiter = example_limiter, writer = hello example_writer POST_request,
      calls = [Call_ServeHTTP example_writer POST_request]\<rparr> \<and>
   takes (calls (LimitHTTP (TokenBucket_at 0 0) example_limiter hello example_writer
     POST_request)) = []"
proof -
  have e: "\<forall>e\<in>set (exceptions example_limiter). \<not> e POST_request"
    by (simp add: example_limiter_def internal_def POST_request_def)
  have f: "\<exists>f\<in>set (filters example_limiter). \<not> f POST_request"
    by (simp add: example_limiter_def only_GET_def POST_request_def)
  have n: "\<not> internal POST_request" "\<not> only_GET POST_request"
    by (simp_all add: internal_def only_GET_def POST_request_def)
  note th = failing_filter_bypasses_limiter [OF e, where api = "TokenBucket_at 0 0"
      and h = hello and w = example_writer]
  from th f have eq: "LimitHTTP (TokenBucket_at 0 0) example_limiter hello example_writer
      POST_request =
     \<lparr>limiter = example_limiter, writer = hello example_writer POST_request,
      calls = [Call_ServeHTTP example_writer POST_request]\<rparr>"
    by blast
  from th f have "takes (calls (LimitHTTP (TokenBucket_at 0 0) example_limiter hello
      example_writer POST_request)) = []"
    by blast
  with n eq show ?thesis by blast
qed

subsection \<open>The reporting headers\<close>

text \<open>
  C4. On a request that reaches the bucket step the handler makes two header assignments,
  in this order: \<^verbatim>\<open>X-RateLimit-Limit\<close> gets the decimal string of the bucket's capacity
  and \<^verbatim>\<open>X-RateLimit-Remaining\<close> the decimal string of \<open>max 0 n\<close>, where \<open>n\<close> is what
  \<^verbatim>\<open>Available()\<close> returns after the take. The writer handed to the dispatched function,
  responder or downstream handler alike, carries both values under these names, and each
  value reads back as the integer it stands for. On a bypassed request the handler makes
  no header assignment and hands the writer on as it received it.
\<close>

theorem ratelimit_headers:
  assumes "TakeAvailable api 1 (bucket l) = (taken, b1)" and "Available api b1 = (n, b2)"
  shows "((\<forall>e\<in>set (exceptions l). \<not> e r) \<and> (\<forall>f\<in>set (filters l). f r) \<longrightarrow>
            header_sets (calls (LimitHTTP api l h w r)) =
              [(''X-RateLimit-Limit'', FormatInt (sint (Capacity api b1))),
               (''X-RateLimit-Remaining'', FormatInt (max 0 (sint n)))] \<and>
            (\<exists>w'. dispatches (calls (LimitHTTP api l h w r)) =
                     [(if taken = 0 then Deny else Forward, w', r)] \<and>
                  Header_Get (header w') ''X-RateLimit-Limit'' =
                    FormatInt (sint (Capacity api b1)) \<and>
                  parse_decimal (Header_Get (header w') ''X-RateLimit-Limit'') =
                    Some (sint (Capacity api b1)) \<and>
                  Header_Get (header w') ''X-RateLimit-Remaining'' =
                    FormatInt (max 0 (sint n)) \<and>
                  parse_decimal (Header_Get (header w') ''X-RateLimit-Remaining'') =
                    Some (max 0 (sint n)))) \<and>
         ((\<exists>e\<in>set (exceptions l). e r) \<or> (\<exists>f\<in>set (filters l). \<not> f r) \<longrightarrow>
            header_sets (calls (LimitHTTP api l h w r)) = [] \<and>
            dispatches (calls (LimitHTTP api l h w r)) = [(Forward, w, r)])"
proof (intro conjI impI)
  assume "(\<exists>e\<in>set (exceptions l). e r) \<or> (\<exists>f\<in>set (filters l). \<not> f r)"
  then have eq: "LimitHTTP api l h w r = \<lparr>limiter = l, writer = h w r, calls = [Call_ServeHTTP w r]\<rparr>"
    by (rule LimitHTTP_bypass_dispatch)
  show "header_sets (calls (LimitHTTP api l h w r)) = []" by (simp add: eq)
  show "dispatches (calls (LimitHTTP api l h w r)) = [(Forward, w, r)]" by (simp add: eq)
next
  assume a: "(\<forall>e\<in>set (exceptions l). \<not> e r) \<and> (\<forall>f\<in>set (filters l). f r)"
  then have e: "\<forall>e\<in>set (exceptions l). \<not> e r" and f: "\<forall>f\<in>set (filters l). f r" by blast+
  note hs = LimitHTTP_limited_headers [OF e f assms, of h w]
  from hs show "header_sets (calls (LimitHTTP api l h w r)) =
              [(''X-RateLimit-Limit'', FormatInt (sint (Capacity api b1))),
               (''X-RateLimit-Remaining'', FormatInt (max 0 (sint n)))]" by (rule conjunct1)
  from hs obtain w' where
    d: "dispatches (calls (LimitHTTP api l h w r)) = [(if taken = 0 then Deny else Forward, w', r)]"
    and lim: "Header_Get (header w') ''X-RateLimit-Limit'' = FormatInt (sint (Capacity api b1))"
    and rem: "Header_Get (header w') ''X-RateLimit-Remaining'' = FormatInt (max 0 (sint n))"
    by blast
  show "\<exists>w'. dispatches (calls (LimitHTTP api l h w r)) =
                     [(if taken = 0 then Deny else Forward, w', r)] \<and>
                  Header_Get (header w') ''X-RateLimit-Limit'' =
                    FormatInt (sint (Capacity api b1)) \<and>
                  parse_decimal (Header_Get (header w') ''X-RateLimit-Limit'') =
                    Some (sint (Capacity api b1)) \<and>
                  Header_Get (header w') ''X-RateLimit-Remaining'' =
                    FormatInt (max 0 (sint n)) \<and>
                  parse_decimal (Header_Get (header w') ''X-RateLimit-Remaining'') =
                    Some (max 0 (sint n))"
    by (rule exI [of _ w']) (simp add: d lim rem parse_decimal_FormatInt)
qed

theorem ratelimit_headers_witness:
  "(\<exists>w'. dispatches (calls (LimitHTTP (TokenBucket_at 0 0) (example_limiter\<lparr>bucket := example_bucket\<rparr>)
             hello example_writer GET_request)) = [(Forward, w', GET_request)] \<and>
          Header_Get (header w') ''X-RateLimit-Limit'' = ''2'' \<and>
          Header_Get (header w') ''X-RateLimit-Remaining'' = ''1'') \<and>
   header_sets (calls (LimitHTTP (TokenBucket_at 0 0) (example_limiter\<lparr>bucket := example_bucket\<rparr>)
      hello example_writer internal_request)) = []"
proof -
  let ?l = "example_limiter\<lparr>bucket := example_bucket\<rparr>"
  have t: "TakeAvailable (TokenBucket_at 0 0) 1 (bucket ?l) = (1, example_bucket\<lparr>tb_available := 1\<rparr>)"
    by (simp add: example_take)
  have c: "Capacity (TokenBucket_at 0 0) (example_bucket\<lparr>tb_available := 1\<rparr>) = 2"
    by (simp add: TokenBucket_at_def TokenBucket_capacity_def example_bucket_def)
  have two: "FormatInt 2 = ''2''" and one: "FormatInt 1 = ''1''"
    by code_simp+
  have i: "\<exists>e\<in>set (exceptions ?l). e internal_request"
    by (simp add: example_limiter_def internal_def internal_request_def)
  note g = ratelimit_headers [OF t example_available, where r = GET_request
      and h = hello and w = example_writer, THEN conjunct1, THEN mp,
      OF conjI [OF example_no_exception example_filters_pass]]
  note b = ratelimit_headers [OF t example_available, where r = internal_request
      and h = hello and w = example_writer, THEN conjunct2, THEN mp, OF disjI1 [OF i]]
  from g b show ?thesis
    by (simp add: c two one) blast
qed

subsection \<open>Construction\<close>

text \<open>
  C5. With the bucket constructors of the specification, a limiter is not built from a
  capacity that is zero or negative, nor from a time window (resp. a rate) that is zero
  or negative: the constructor's result is the failure \<open>InvalidConfig\<close> and no limiter.
  Every other configuration builds a limiter. In Go the failure is a panic raised inside
  the bucket's constructor, before the \<^verbatim>\<open>Limiter\<close> literal exists.
\<close>

theorem invalid_config_fails:
  "(sint cap \<le> 0 \<or> sint timeWindow \<le> 0 \<longrightarrow>
      NewTimeLimiter (NewBucket now) current timeWindow cap = Inl InvalidConfig) \<and>
   (sint cap \<le> 0 \<or> rate \<le> 0 \<longrightarrow>
      NewRateLimiter (NewBucketWithRate now) current rate cap = Inl InvalidConfig) \<and>
   ((\<exists>l. NewTimeLimiter (NewBucket now) current timeWindow cap = Inr l) \<longleftrightarrow>
      0 < sint cap \<and> 0 < sint timeWindow) \<and>
   ((\<exists>l. NewRateLimiter (NewBucketWithRate now) current rate cap = Inr l) \<longleftrightarrow>
      0 < sint cap \<and> 0 < rate)"
  by (auto simp: NewTimeLimiter_spec NewRateLimiter_spec)

theorem invalid_config_fails_witness:
  "NewTimeLimiter (NewBucket 0) RateLimitResponder 60000000000 0 = Inl InvalidConfig \<and>
   NewTimeLimiter (NewBucket 0) RateLimitResponder 0 5 = Inl InvalidConfig \<and>
   NewRateLimiter (NewBucketWithRate 0) RateLimitResponder 1 (- 1) = Inl InvalidConfig \<and>
   NewRateLimiter (NewBucketWithRate 0) RateLimitResponder 0 5 = Inl InvalidConfig \<and>
   (\<exists>l. NewRateLimiter (NewBucketWithRate 0) RateLimitResponder 1 2 = Inr l)"
  using invalid_config_fails [of 0 60000000000 0 RateLimitResponder 0]
    invalid_config_fails [of 5 0 0 RateLimitResponder 0]
    invalid_config_fails [of "- 1" 0 0 RateLimitResponder 1]
    invalid_config_fails [of 2 0 0 RateLimitResponder 1]
  by simp

subsection \<open>The default responder\<close>

text \<open>
  C6. A limiter built while the package variable holds its initial value has that value,
  \<open>RateLimitResponder\<close>, as its responder, and registering filters or exceptions or
  serving requests does not change it. With this responder, a request that reaches the
  bucket step and finds no token is answered by the responder, that is by
  \<^verbatim>\<open>WriteHeader(429)\<close> followed by \<^verbatim>\<open>Write("Too Many Requests")\<close> on the writer that
  carries the two reporting headers: a response that had no status yet gets the status
  429 and the body \<^verbatim>\<open>Too Many Requests\<close>.
\<close>

theorem default_responder_writes_429:
  "(NewTimeLimiter newBucket RateLimitResponder timeWindow cap = Inr l0 \<longrightarrow>
      responder l0 = RateLimitResponder) \<and>
   (NewRateLimiter newBucketWithRate RateLimitResponder rate cap' = Inr l1 \<longrightarrow>
      responder l1 = RateLimitResponder) \<and>
   responder (Filter fs l) = responder l \<and>
   responder (Exception es l) = responder l \<and>
   responder (limiter (LimitHTTP api l h w r)) = responder l \<and>
   (responder l = RateLimitResponder \<and>
    (\<forall>e\<in>set (exceptions l). \<not> e r) \<and> (\<forall>f\<in>set (filters l). f r) \<and>
    fst (TakeAvailable api 1 (bucket l)) = 0 \<longrightarrow>
      (\<exists>w'. dispatches (calls (LimitHTTP api l h w r)) = [(Deny, w', r)] \<and>
            writer (LimitHTTP api l h w r) = Write ''Too Many Requests'' (WriteHeader 429 w')) \<and>
      (status w = None \<longrightarrow>
         status (writer (LimitHTTP api l h w r)) = Some 429 \<and>
         body (writer (LimitHTTP api l h w r)) = body w @ ''Too Many Requests''))"
proof (intro conjI impI)
  show "responder (Filter fs l) = responder l" by (simp add: Filter_def)
  show "responder (Exception es l) = responder l" by (simp add: Exception_def)
  show "responder (limiter (LimitHTTP api l h w r)) = responder l" by (rule LimitHTTP_responder)
next
  assume "NewTimeLimiter newBucket RateLimitResponder timeWindow cap = Inr l0"
  then show "responder l0 = RateLimitResponder" by (simp add: NewTimeLimiter_responder)
next
  assume "NewRateLimiter newBucketWithRate RateLimitResponder rate cap' = Inr l1"
  then show "responder l1 = RateLimitResponder" by (simp add: NewRateLimiter_responder)
next
  assume a: "responder l = RateLimitResponder \<and>
    (\<forall>e\<in>set (exceptions l). \<not> e r) \<and> (\<forall>f\<in>set (filters l). f r) \<and>
    fst (TakeAvailable api 1 (bucket l)) = 0"
  then have e: "\<forall>e\<in>set (exceptions l). \<not> e r" and f: "\<forall>f\<in>set (filters l). f r"
    and t: "fst (TakeAvailable api 1 (bucket l)) = 0" and d: "responder l = RateLimitResponder"
    by blast+
  from LimitHTTP_deny [OF e f t, of h w] obtain w' where
    w': "dispatches (calls (LimitHTTP api l h w r)) = [(Deny, w', r)]"
       "writer (LimitHTTP api l h w r) = RateLimitResponder w' r"
       "status w' = status w" "body w' = body w"
    using d by auto
  from w' show "\<exists>w'. dispatches (calls (LimitHTTP api l h w r)) = [(Deny, w', r)] \<and>
            writer (LimitHTTP api l h w r) = Write ''Too Many Requests'' (WriteHeader 429 w')"
    by (auto simp: RateLimitResponder_def)
  from w' show "body (writer (LimitHTTP api l h w r)) = body w @ ''Too Many Requests''"
    by (simp add: RateLimitResponder_writes)
  assume "status w = None"
  with w' show "status (writer (LimitHTTP api l h w r)) = Some 429"
    by (simp add: RateLimitResponder_writes)
qed

theorem default_responder_writes_429_witness:
  "responder (example_limiter\<lparr>bucket := empty_bucket\<rparr>) = RateLimitResponder \<and>
   fst (TakeAvailable (TokenBucket_at 0 0) 1 empty_bucket) = 0 \<and>
   body (writer (LimitHTTP (TokenBucket_at 0 0) (example_limiter\<lparr>bucket := empty_bucket\<rparr>) hello
     example_writer GET_request)) = ''Too Many Requests'' \<and>
   status (writer (LimitHTTP (TokenBucket_at 0 0) (example_limiter\<lparr>bucket := empty_bucket\<rparr>) hello
     example_writer GET_request)) = Some 429"
proof -
  let ?l = "example_limiter\<lparr>bucket := empty_bucket\<rparr>"
  have d: "responder ?l = RateLimitResponder"
    by (simp add: example_limiter_def)
  have t: "fst (TakeAvailable (TokenBucket_at 0 0) 1 (bucket ?l)) = 0"
    by (simp add: empty_take)
  have s: "status example_writer = None" "body example_writer = []"
    by (simp_all add: example_writer_def)
  have ante: "responder ?l = RateLimitResponder \<and>
      (\<forall>e\<in>set (exceptions ?l). \<not> e GET_request) \<and> (\<forall>f\<in>set (filters ?l). f GET_request) \<and>
      fst (TakeAvailable (TokenBucket_at 0 0) 1 (bucket ?l)) = 0"
    using d t example_no_exception [of empty_bucket] example_filters_pass [of empty_bucket]
    by blast
  note imp = default_responder_writes_429 [where l = ?l and api = "TokenBucket_at 0 0"
      and h = hello and w = example_writer and r = GET_request,
      THEN conjunct2, THEN conjunct2, THEN conjunct2, THEN conjunct2, THEN conjunct2]
  from imp [THEN mp, OF ante] d t s show ?thesis by simp
qed

subsection \<open>Token consumption\<close>




text \<open>
  C8. For the bucket of the specification: on a bucket constructed at the time \<open>t0\<close>, any
  finite sequence of \<^verbatim>\<open>takeAvailable\<close> calls that all read the same clock time
  \<open>now \<ge> t0\<close> (no time elapses between them) takes at most \<open>capacity\<close> tokens in total,
  and no call takes a negative count. A bucket is constructed only from a positive
  capacity.
\<close>

theorem tokens_taken_within_capacity:
  assumes "TokenBucket_new t0 policy cap = Inr b" and "t0 \<le> now"
  shows "sum_list (fst (takeAvailable_seq now ns b)) \<le> cap \<and>
         (\<forall>taken \<in> set (fst (takeAvailable_seq now ns b)). 0 \<le> taken)"
proof -
  let ?b = "refill now b"
  from refill_fresh [OF assms] have st: "stable_at now ?b" and a: "tb_available ?b = cap"
    and c: "tb_capacity ?b = cap" by simp_all
  have idem: "refill now ?b = ?b" by (rule refill_stable [OF st])
  have eq: "fst (takeAvailable_seq now ns ?b) = fst (takeAvailable_seq now ns b)"
    using takeAvailable_seq_refill [OF idem] by simp
  from takeAvailable_seq_stable [OF st, of ns]
  have s: "sum_list (fst (takeAvailable_seq now ns ?b)) =
      tb_available ?b - tb_available (snd (takeAvailable_seq now ns ?b))"
    and st': "stable_at now (snd (takeAvailable_seq now ns ?b))" by simp_all
  from st' have "0 \<le> tb_available (snd (takeAvailable_seq now ns ?b))"
    by (simp add: stable_at_def)
  with s a eq have "sum_list (fst (takeAvailable_seq now ns b)) \<le> cap" by simp
  then show ?thesis using takeAvailable_seq_nonneg by blast
qed

theorem tokens_taken_within_capacity_witness:
  "TokenBucket_new 0 (RatePerSecond 1) 2 = Inr example_bucket \<and>
   fst (takeAvailable_seq (5 / 2) [1, 1, 1] example_bucket) = [1, 1, 0] \<and>
   sum_list (fst (takeAvailable_seq (5 / 2) [1, 1, 1] example_bucket)) \<le> 2"
proof -
  have n: "TokenBucket_new 0 (RatePerSecond 1) 2 = Inr example_bucket"
    by (simp add: TokenBucket_new_def example_bucket_def)
  have t: "(0::rat) \<le> 5 / 2" by simp
  have "fst (takeAvailable_seq (5 / 2) [1, 1, 1] example_bucket) = [1, 1, 0]"
    by (simp add: TokenBucket_takeAvailable_def refill_def example_bucket_def Let_def)
  with n tokens_taken_within_capacity [OF n t, of "[1, 1, 1]"] show ?thesis by simp
qed

subsection \<open>One responder per limiter\<close>

text \<open>
  C9. A constructor stores the value the package variable holds when it runs; the limiter
  keeps its own copy. \<^verbatim>\<open>SetResponder\<close> replaces the responder of the limiter it is called
  on and nothing else of it; a denied request is answered by whatever responder the
  limiter then holds. In a store of limiters, \<^verbatim>\<open>SetResponder\<close> through the pointer \<open>p\<close>
  changes the limiter at \<open>p\<close> only: every limiter at another address is the same as
  before and serves every request with the same writer and the same calls as before.
\<close>

theorem responder_is_per_instance:
  "(NewTimeLimiter newBucket current timeWindow cap = Inr l0 \<longrightarrow> responder l0 = current) \<and>
   (NewRateLimiter newBucketWithRate current rate cap' = Inr l1 \<longrightarrow> responder l1 = current) \<and>
   responder (SetResponder fn l) = fn \<and>
   bucket (SetResponder fn l) = bucket l \<and>
   filters (SetResponder fn l) = filters l \<and>
   exceptions (SetResponder fn l) = exceptions l \<and>
   ((\<forall>e\<in>set (exceptions l). \<not> e r) \<and> (\<forall>f\<in>set (filters l). f r) \<and>
    fst (TakeAvailable api 1 (bucket l)) = 0 \<longrightarrow>
      (\<exists>w'. dispatches (calls (LimitHTTP api l h w r)) = [(Deny, w', r)] \<and>
            writer (LimitHTTP api l h w r) = responder l w' r)) \<and>
   (st p = Some l \<longrightarrow> invoke p (SetResponder fn) st = Inr (st(p \<mapsto> SetResponder fn l))) \<and>
   (invoke p (SetResponder fn) st = Inr st' \<and> q \<noteq> p \<longrightarrow>
      st' q = st q \<and>
      map_sum id snd (serve api q h w r st') = map_sum id snd (serve api q h w r st))"
proof (intro conjI impI)
  assume "NewTimeLimiter newBucket current timeWindow cap = Inr l0"
  then show "responder l0 = current" by (simp add: NewTimeLimiter_responder)
next
  assume "NewRateLimiter newBucketWithRate current rate cap' = Inr l1"
  then show "responder l1 = current" by (simp add: NewRateLimiter_responder)
next
  show "responder (SetResponder fn l) = fn" by (simp add: SetResponder_def)
  show "bucket (SetResponder fn l) = bucket l" by (simp add: SetResponder_def)
  show "filters (SetResponder fn l) = filters l" by (simp add: SetResponder_def)
  show "exceptions (SetResponder fn l) = exceptions l" by (simp add: SetResponder_def)
next
  assume "(\<forall>e\<in>set (exceptions l). \<not> e r) \<and> (\<forall>f\<in>set (filters l). f r) \<and>
    fst (TakeAvailable api 1 (bucket l)) = 0"
  then have e: "\<forall>e\<in>set (exceptions l). \<not> e r" and f: "\<forall>f\<in>set (filters l). f r"
    and t: "fst (TakeAvailable api 1 (bucket l)) = 0" by blast+
  from LimitHTTP_deny [OF e f t, of h w]
  show "\<exists>w'. dispatches (calls (LimitHTTP api l h w r)) = [(Deny, w', r)] \<and>
            writer (LimitHTTP api l h w r) = responder l w' r" by blast
next
  assume "st p = Some l"
  then show "invoke p (SetResponder fn) st = Inr (st(p \<mapsto> SetResponder fn l))"
    by (rule invoke_Some)
next
  assume a: "invoke p (SetResponder fn) st = Inr st' \<and> q \<noteq> p"
  then show q: "st' q = st q" using invoke_other by blast
  show "map_sum id snd (serve api q h w r st') = map_sum id snd (serve api q h w r st)"
    using q by (rule serve_other)
qed

theorem responder_is_per_instance_witness:
  "two_limiters 0 = Some (example_limiter\<lparr>bucket := empty_bucket\<rparr>) \<and>
   invoke 0 (SetResponder slow_down) two_limiters =
     Inr (two_limiters(0 \<mapsto> SetResponder slow_down (example_limiter\<lparr>bucket := empty_bucket\<rparr>))) \<and>
   map_sum id snd (serve (TokenBucket_at 0 0) 1 hello example_writer GET_request
     (two_limiters(0 \<mapsto> SetResponder slow_down (example_limiter\<lparr>bucket := empty_bucket\<rparr>)))) =
   map_sum id snd (serve (TokenBucket_at 0 0) 1 hello example_writer GET_request two_limiters)"
proof -
  let ?l = "example_limiter\<lparr>bucket := empty_bucket\<rparr>"
  let ?st' = "two_limiters(0 \<mapsto> SetResponder slow_down ?l)"
  note th = responder_is_per_instance [where l = ?l and st = two_limiters and p = 0
      and fn = slow_down and st' = ?st' and q = 1 and api = "TokenBucket_at 0 0" and h = hello
      and w = example_writer and r = GET_request, THEN conjunct2, THEN conjunct2,
      THEN conjunct2, THEN conjunct2, THEN conjunct2, THEN conjunct2, THEN conjunct2]
  have p: "two_limiters 0 = Some ?l" by (simp add: two_limiters_def)
  from th [THEN conjunct1, THEN mp, OF p]
  have i: "invoke 0 (SetResponder slow_down) two_limiters = Inr ?st'" .
  have "(1::nat) \<noteq> 0" by simp
  with i have "invoke 0 (SetResponder slow_down) two_limiters = Inr ?st' \<and> (1::nat) \<noteq> 0"
    by simp
  from th [THEN conjunct2, THEN mp, OF this, THEN conjunct2] p i show ?thesis by simp
qed

subsection \<open>Exactly one dispatch\<close>

text \<open>
  C10. Every run of the handler makes exactly one dispatch, with the request it received:
  either one call of the downstream handler or one call of the responder, never both and
  never neither; the writer that results is the one that call returns.
\<close>

theorem exactly_one_dispatch:
  "\<exists>d w'. dispatches (calls (LimitHTTP api l h w r)) = [(d, w', r)] \<and>
          writer (LimitHTTP api l h w r) = (case d of Forward \<Rightarrow> h | Deny \<Rightarrow> responder l) w' r"
proof (cases "(\<exists>e\<in>set (exceptions l). e r) \<or> (\<exists>f\<in>set (filters l). \<not> f r)")
  case True
  have eq: "LimitHTTP api l h w r = \<lparr>limiter = l, writer = h w r, calls = [Call_ServeHTTP w r]\<rparr>"
    by (rule LimitHTTP_bypass_dispatch [OF True])
  show ?thesis
    by (rule exI [of _ Forward], rule exI [of _ w]) (simp add: eq)
next
  case False
  then have e: "\<forall>e\<in>set (exceptions l). \<not> e r" and f: "\<forall>f\<in>set (filters l). f r" by blast+
  obtain taken b1 where t: "TakeAvailable api 1 (bucket l) = (taken, b1)" by fastforce
  from LimitHTTP_limited_dispatch [OF e f t, of h w] obtain w' where
    d: "dispatches (calls (LimitHTTP api l h w r)) = [(if taken = 0 then Deny else Forward, w', r)]"
    and w: "writer (LimitHTTP api l h w r) = (if taken = 0 then responder l else h) w' r"
    by blast
  show ?thesis
    by (rule exI [of _ "if taken = 0 then Deny else Forward"], rule exI [of _ w'])
      (simp add: d w)
qed

theorem exactly_one_dispatch_witness:
  "\<exists>d w'. dispatches (calls (LimitHTTP (TokenBucket_at 0 0) example_limiter hello example_writer
       GET_request)) = [(d, w', GET_request)]"
  using exactly_one_dispatch [of "TokenBucket_at 0 0" example_limiter hello example_writer
      GET_request]
  by blast

end
